theory Spec2Isabelle
  imports Complex_Main "HOL-Library.Product_Lexorder"
begin

section \<open>Text primitives of the orchestrator\<close>

text \<open>
  Python strings are modelled as \<open>string\<close> (lists of characters) over the ASCII range.
  \<open>is_space\<close> is the whitespace class shared by \<open>str.strip\<close>, \<open>str.split\<close> and the
  regular-expression class \<open>\s\<close> on ASCII text: tab, line feed, vertical tab, form feed,
  carriage return, the four separators 0x1C..0x1F and the blank.
\<close>

definition is_space :: "char \<Rightarrow> bool" where
  "is_space c = (c \<in> set [CHR 0x09, CHR 0x0A, CHR 0x0B, CHR 0x0C, CHR 0x0D,
                            CHR 0x1C, CHR 0x1D, CHR 0x1E, CHR 0x1F, CHR 0x20])"

definition lower_char :: "char \<Rightarrow> char" where
  "lower_char c =
     (case map_of (zip ''ABCDEFGHIJKLMNOPQRSTUVWXYZ'' ''abcdefghijklmnopqrstuvwxyz'') c of
        Some d \<Rightarrow> d
      | None \<Rightarrow> c)"

definition lower :: "string \<Rightarrow> string" where
  "lower s = map lower_char s"

definition strip :: "string \<Rightarrow> string" where
  "strip s = rev (dropWhile is_space (rev (dropWhile is_space s)))"

text \<open>\<open>re.sub(r"`+", "", s)\<close>: every backtick (character 0x60) is deleted.\<close>

definition strip_backticks :: "string \<Rightarrow> string" where
  "strip_backticks s = filter (\<lambda>c. c \<noteq> CHR 0x60) s"

text \<open>\<open>re.sub(r"\s+", " ", s)\<close>: every maximal run of whitespace becomes one blank.\<close>

function collapse_ws :: "string \<Rightarrow> string" where
  "collapse_ws [] = []"
| "collapse_ws (c # cs) =
     (if is_space c then CHR 0x20 # collapse_ws (dropWhile is_space cs)
      else c # collapse_ws cs)"
  by pat_completeness auto
termination
  by (relation "measure length") (auto simp: length_dropWhile_le less_Suc_eq_le)

section \<open>Vote reconciler\<close>

definition normalize_for_vote :: "string \<Rightarrow> string" where
  "normalize_for_vote s = collapse_ws (strip_backticks (lower (strip s)))"

text \<open>
  The dictionary \<open>counts\<close> of \<open>_vote_select\<close> maps a normalised text to the pair
  (number of votes, first raw text seen). Python dictionaries keep insertion order and
  \<open>sorted\<close> is stable, so the dictionary is an association list in insertion order:
  assigning to a present key keeps its place, assigning to a new key appends.
\<close>

type_synonym counts = "(string \<times> nat \<times> string) list"

fun dict_set :: "'k \<Rightarrow> 'v \<Rightarrow> ('k \<times> 'v) list \<Rightarrow> ('k \<times> 'v) list" where
  "dict_set k v [] = [(k, v)]"
| "dict_set k v ((k', v') # kvs) =
     (if k = k' then (k, v) # kvs else (k', v') # dict_set k v kvs)"

text \<open>One turn of the loop \<open>for raw in candidates\<close>.\<close>

definition count_vote :: "counts \<Rightarrow> string \<Rightarrow> counts" where
  "count_vote counts raw =
     (let n = normalize_for_vote raw in
      if n = [] then counts
      else
        let counts1 = (if map_of counts n = None then dict_set n (0, raw) counts else counts)
        in (case map_of counts1 n of
              Some (c, r) \<Rightarrow> dict_set n (c + 1, r) counts1
            | None \<Rightarrow> counts1))"

definition tally :: "string list \<Rightarrow> counts" where
  "tally candidates = foldl count_vote [] candidates"

text \<open>
  \<open>sorted(counts.items(), key=lambda kv: (kv[1][0], len(kv[1][1])), reverse=True)\<close>.
  A reversed stable sort is the stable ascending sort of the reversed list, reversed
  again: items with equal keys keep their original order. Keys are compared as tuples,
  that is lexicographically.
\<close>

definition vote_key :: "string \<times> nat \<times> string \<Rightarrow> nat \<times> nat" where
  "vote_key kv = (fst (snd kv), length (snd (snd kv)))"

definition ranked :: "counts \<Rightarrow> counts" where
  "ranked counts = rev (sort_key vote_key (rev counts))"

definition vote_select :: "string list \<Rightarrow> string" where
  "vote_select candidates =
     (case candidates of
        [] \<Rightarrow> []
      | first # _ \<Rightarrow>
          (let counts = tally candidates in
           if counts = [] then first
           else (case ranked counts of
                   best # _ \<Rightarrow> snd (snd best)
                 | [] \<Rightarrow> first)))"

text \<open>The candidates that take part in the vote: those with a non-empty normal form.\<close>

abbreviation votable :: "string list \<Rightarrow> string list" where
  "votable candidates \<equiv> filter (\<lambda>c. normalize_for_vote c \<noteq> []) candidates"


section \<open>Answer clean-up\<close>

definition startswith :: "string \<Rightarrow> string \<Rightarrow> bool" where
  "startswith s p = (take (length p) s = p)"

definition endswith :: "string \<Rightarrow> string \<Rightarrow> bool" where
  "endswith s p = (length p \<le> length s \<and> drop (length s - length p) s = p)"

text \<open>
  \<open>_strip_answer\<close>: trim, delete a leading match of \<open>^\s*(answer\s*:\s*)\<close> (case
  insensitive), trim again. The pattern is anchored at the start, so at most one match is
  deleted; a text without the colon after \<open>answer\<close> is left as it is.
\<close>

definition strip_answer :: "string \<Rightarrow> string" where
  "strip_answer text =
     (if text = [] then []
      else
        let t = strip text;
            t0 = dropWhile is_space t;
            t1 = (if lower (take 6 t0) = ''answer''
                  then (case dropWhile is_space (drop 6 t0) of
                          [] \<Rightarrow> t
                        | c # r \<Rightarrow> if c = CHR '':'' then dropWhile is_space r else t)
                  else t)
        in strip t1)"

section \<open>Math stage\<close>

definition ALLOWED_MATH :: "char list" where
  "ALLOWED_MATH = ''0123456789+-*/()% .''"

text \<open>
  \<open>sympify(expr).evalf()\<close> followed by \<open>str\<close> is SymPy, a library outside the
  repository. The stage takes it as the parameter \<open>ev\<close>: \<open>ev expr = Some s\<close> when the
  evaluation prints \<open>s\<close>, \<open>None\<close> when anything inside the \<open>try\<close> block raises.
\<close>

definition math_try :: "(string \<Rightarrow> string option) \<Rightarrow> string \<Rightarrow> string" where
  "math_try ev expr =
     (if expr \<noteq> [] \<and> list_all (\<lambda>c. c \<in> set ALLOWED_MATH) expr
         \<and> list_ex (\<lambda>op. op \<in> set expr) ''+-*/%''
      then (case ev expr of
              None \<Rightarrow> []
            | Some s \<Rightarrow> if endswith s ''.0'' then take (length s - 2) s else s)
      else [])"

section \<open>Short-term memory\<close>

text \<open>
  \<open>MEMORY\<close> is a \<open>deque(maxlen=50)\<close>, oldest pair first. Appending to a full deque
  drops the leftmost element.
\<close>

type_synonym memory = "(string \<times> string) list"

definition deque_append :: "'a \<Rightarrow> 'a list \<Rightarrow> 'a list" where
  "deque_append x d = (let d' = d @ [x] in if length d' > 50 then tl d' else d')"

definition memory_add :: "string \<Rightarrow> string \<Rightarrow> memory \<Rightarrow> memory" where
  "memory_add q a mem = (if q \<noteq> [] \<and> a \<noteq> [] then deque_append (q, a) mem else mem)"

text \<open>The loop \<open>for (qq, aa) in reversed(MEMORY)\<close> of stage 3: the most recent hit.\<close>

definition memory_lookup :: "string \<Rightarrow> memory \<Rightarrow> (string \<times> string) option" where
  "memory_lookup ql mem = find (\<lambda>(qq, aa). lower qq = ql \<and> aa \<noteq> []) (rev mem)"

section \<open>Facts stage\<close>

definition FACTS :: "(string \<times> string) list" where
  "FACTS =
     [(''capital city of kenya'', ''Nairobi''),
      (''capital city of tanzania'', ''Dodoma''),
      (''president of china'', ''Xi Jinping''),
      (''mount kenya continent'', ''Africa''),
      (''largest mountain in the world'', ''Mount Everest'')]"

definition CAPITAL_OF :: "(string \<times> string) list" where
  "CAPITAL_OF =
     [(''kenya'', ''Nairobi''),
      (''tanzania'', ''Dodoma''),
      (''south africa'',
       ''Pretoria (administrative), Cape Town (legislative), Bloemfontein (judicial)'')]"

text \<open>\<open>needle in haystack\<close> on strings.\<close>

fun contains :: "string \<Rightarrow> string \<Rightarrow> bool" where
  "contains needle [] = (needle = [])"
| "contains needle (c # cs) = (startswith (c # cs) needle \<or> contains needle cs)"

text \<open>The character class \<open>[a-z\s\-]\<close>.\<close>

definition country_char :: "char \<Rightarrow> bool" where
  "country_char c = (c \<in> set ''abcdefghijklmnopqrstuvwxyz'' \<or> is_space c \<or> c = CHR ''-'')"

text \<open>
  \<open>re.search(r"capital\s+(city\s+)?of\s+([a-z\s\-]+)\??", ql)\<close>, returning group 2.
  The backtracking matcher is deterministic on this pattern. Each \<open>\s+\<close> before a
  literal must take the whole whitespace run, since the literal starts with a letter.
  After \<open>of\<close>, the greedy \<open>\s+\<close> first takes the whole run \<open>w\<close> and group 2 the longest
  run of class characters that follows; when no class character follows, \<open>\s+\<close> gives
  back its last character (it must keep one), which then is all of group 2.
\<close>

definition after_of :: "string \<Rightarrow> string option" where
  "after_of r =
     (let w = takeWhile is_space r;
          g = takeWhile country_char (dropWhile is_space r)
      in if w = [] then None
         else if g \<noteq> [] then Some g
         else if 2 \<le> length w then Some [last w]
         else None)"

definition match_capital_at :: "string \<Rightarrow> string option" where
  "match_capital_at s =
     (if \<not> startswith s ''capital'' then None
      else
        let r1 = drop 7 s; r2 = dropWhile is_space r1 in
        if takeWhile is_space r1 = [] then None
        else if startswith r2 ''city''
        then (let r3 = drop 4 r2; r4 = dropWhile is_space r3 in
              if takeWhile is_space r3 \<noteq> [] \<and> startswith r4 ''of''
              then after_of (drop 2 r4) else None)
        else if startswith r2 ''of'' then after_of (drop 2 r2)
        else None)"

text \<open>\<open>re.search\<close> tries the start positions from left to right; the first match wins.\<close>

fun search_capital :: "string \<Rightarrow> string option" where
  "search_capital [] = None"
| "search_capital (c # cs) =
     (case match_capital_at (c # cs) of
        Some g \<Rightarrow> Some g
      | None \<Rightarrow> search_capital cs)"

definition capital_lookup :: "string \<Rightarrow> string option" where
  "capital_lookup ql =
     (if contains ''capital'' ql \<and> contains '' of '' ql
      then (case search_capital ql of
              None \<Rightarrow> None
            | Some g \<Rightarrow>
                (case map_of CAPITAL_OF (strip g) of
                   None \<Rightarrow> None
                 | Some ans_cap \<Rightarrow> if ans_cap \<noteq> [] then Some ans_cap else None))
      else None)"

text \<open>\<open>for k, v in FACTS.items(): if k in ql\<close>: the first key, in table order.\<close>

definition facts_lookup :: "string \<Rightarrow> string option" where
  "facts_lookup ql = map_option snd (find (\<lambda>(k, v). contains k ql) FACTS)"


section \<open>Providers and their environment\<close>

text \<open>
  A provider function returns \<open>Optional[str]\<close> or raises. A call submitted to the thread
  pool is a future; when the deadline \<open>TIMEOUT_S + 5\<close> of \<open>as_completed\<close> passes, a
  future either has completed (with a result or an exception) or has not.
\<close>

datatype call_result = Raises | Returns "string option"

datatype future = Done call_result | NotDone

text \<open>
  Everything outside the process: the environment variables, the SymPy evaluator, the
  result of calling a provider directly (provider, prompt, system), the state of a pooled
  call at the deadline, and the order in which the pooled calls complete (smaller rank
  first; equal ranks in submission order).
\<close>

record world =
  getenv :: "string \<Rightarrow> string option"
  sympy_eval :: "string \<Rightarrow> string option"
  direct_call :: "string \<Rightarrow> string \<Rightarrow> string \<Rightarrow> call_result"
  pool_call :: "string \<Rightarrow> string \<Rightarrow> string \<Rightarrow> future"
  finish_rank :: "string \<Rightarrow> nat"

text \<open>Truthiness of \<open>os.getenv(name)\<close>: set and not empty.\<close>

definition env_set :: "world \<Rightarrow> string \<Rightarrow> bool" where
  "env_set w name = (case getenv w name of None \<Rightarrow> False | Some v \<Rightarrow> v \<noteq> [])"

definition PROVIDER_FUNCS :: "string list" where
  "PROVIDER_FUNCS = [''openai'', ''anthropic'', ''google'', ''mistral'', ''cohere'']"

text \<open>\<open>s.split(",")\<close>: the pieces between the separators; never an empty list.\<close>

fun split_on :: "char \<Rightarrow> string \<Rightarrow> string list" where
  "split_on d [] = [[]]"
| "split_on d (c # cs) =
     (if c = d then [] # split_on d cs
      else (case split_on d cs of
              [] \<Rightarrow> [[c]]
            | piece # pieces \<Rightarrow> (c # piece) # pieces))"

definition provider_order :: "world \<Rightarrow> string option \<Rightarrow> string list" where
  "provider_order w force_provider =
     (let forced = (case force_provider of
                      None \<Rightarrow> None
                    | Some f \<Rightarrow> if f \<noteq> [] \<and> f \<in> set PROVIDER_FUNCS then Some f else None)
      in case forced of
           Some f \<Rightarrow> [f]
         | None \<Rightarrow>
             (let order_env = (case getenv w ''PROVIDER_ORDER'' of None \<Rightarrow> [] | Some v \<Rightarrow> v);
                  order = map strip (filter (\<lambda>p. strip p \<in> set PROVIDER_FUNCS)
                                            (split_on CHR '','' order_env))
              in if order_env \<noteq> [] \<and> order \<noteq> [] then order
                 else [''openai'', ''anthropic'', ''google'', ''mistral'', ''cohere'']))"

definition active_providers :: "world \<Rightarrow> string list \<Rightarrow> string list" where
  "active_providers w order =
     (if ''openai'' \<in> set order \<and> env_set w ''OPENAI_API_KEY'' then [''openai''] else [])
   @ (if ''anthropic'' \<in> set order \<and> env_set w ''ANTHROPIC_API_KEY'' then [''anthropic''] else [])
   @ (if ''google'' \<in> set order \<and> (env_set w ''GOOGLE_API_KEY'' \<or> env_set w ''GEMINI_API_KEY'')
      then [''google''] else [])
   @ (if ''mistral'' \<in> set order \<and> env_set w ''MISTRAL_API_KEY'' then [''mistral''] else [])
   @ (if ''cohere'' \<in> set order \<and> env_set w ''COHERE_API_KEY'' then [''cohere''] else [])"

section \<open>The Anthropic adapter\<close>

text \<open>
  The HTTP exchange of \<open>_anthropic_chat\<close>: \<open>requests.post\<close> raises on a transport error,
  otherwise there is a status code and a body; \<open>r.json()\<close> yields a JSON value or raises.
\<close>

datatype json =
    JNull
  | JBool bool
  | JNum int
  | JStr string
  | JArr "json list"
  | JObj "(string \<times> json) list"

datatype http = TransportError | Response nat "json option"

text \<open>
  One step of the generator \<open>p.get("text","") for p in parts if p.get("type") == "text"\<close>.
  \<open>None\<close>: the step raises (\<open>p\<close> has no \<open>get\<close>, or the text is no string, which
  \<open>join\<close> rejects). A part of another type contributes nothing.
\<close>

fun part_text :: "json \<Rightarrow> string option" where
  "part_text (JObj kvs) =
     (if map_of kvs ''type'' = Some (JStr ''text'')
      then (case map_of kvs ''text'' of
              None \<Rightarrow> Some []
            | Some (JStr t) \<Rightarrow> Some t
            | Some _ \<Rightarrow> None)
      else Some [])"
| "part_text _ = None"

fun join_parts :: "json list \<Rightarrow> string option" where
  "join_parts [] = Some []"
| "join_parts (p # ps) =
     (case part_text p of
        None \<Rightarrow> None
      | Some t \<Rightarrow> (case join_parts ps of None \<Rightarrow> None | Some r \<Rightarrow> Some (t @ r)))"

text \<open>
  \<open>"".join(... for p in parts)\<close> for any value \<open>parts\<close>: iterating a string yields
  characters and iterating an object yields its keys, neither of which has \<open>get\<close>;
  null, booleans and numbers are not iterable.
\<close>

fun join_content :: "json \<Rightarrow> string option" where
  "join_content (JArr ps) = join_parts ps"
| "join_content (JStr s) = (if s = [] then Some [] else None)"
| "join_content (JObj kvs) = (if kvs = [] then Some [] else None)"
| "join_content _ = None"

definition anthropic_chat :: "string option \<Rightarrow> http \<Rightarrow> call_result" where
  "anthropic_chat key exchange =
     (if (case key of None \<Rightarrow> True | Some k \<Rightarrow> k = []) then Returns None
      else
        (case exchange of
           TransportError \<Rightarrow> Raises
         | Response status_code body \<Rightarrow>
             if status_code \<ge> 400 then Returns None
             else
               (case body of
                  Some (JObj kvs) \<Rightarrow>
                    (case join_content (case map_of kvs ''content'' of
                                          None \<Rightarrow> JArr []
                                        | Some parts \<Rightarrow> parts) of
                       None \<Rightarrow> Returns None
                     | Some s \<Rightarrow> if s = [] then Returns None else Returns (Some s))
                | _ \<Rightarrow> Returns None)))"

section \<open>The public entry point\<close>

record response =
  mode :: string
  answer :: string
  provider :: string
  providers_used :: "string list"
  from_memory :: bool

datatype error = TimeoutError

text \<open>
  A run of \<open>answer_question\<close> yields the returned dictionary or the exception that
  escapes, the contents of \<open>MEMORY\<close> afterwards, and the providers whose functions were
  called, in call order.
\<close>

record outcome =
  result :: "error + response"
  memory_after :: memory
  calls :: "string list"

definition single :: "string \<Rightarrow> string \<Rightarrow> string list \<Rightarrow> bool \<Rightarrow> response" where
  "single a p used fm =
     \<lparr>mode = ''single'', answer = a, provider = p, providers_used = used, from_memory = fm\<rparr>"

definition SYSTEM :: string where
  "SYSTEM = ''Answer directly and correctly. Be concise. If asked for code, provide runnable code blocks.''"

definition NO_ANSWER :: string where
  "NO_ANSWER = ''I don'' @ [CHR 0x27] @ ''t have an exact answer yet for that.''"

text \<open>The body of the loop over \<open>as_completed\<close>, for the futures in completion order.\<close>

fun collect :: "(string \<times> call_result) list \<Rightarrow> string list \<times> string list" where
  "collect [] = ([], [])"
| "collect ((prov, r) # rest) =
     (let (answers, used) = collect rest in
      case r of
        Returns (Some resp) \<Rightarrow>
          if resp \<noteq> [] then (strip_answer resp # answers, prov # used) else (answers, used)
      | _ \<Rightarrow> (answers, used))"

text \<open>
  The fan-out. \<open>as_completed(futures, timeout=TIMEOUT_S + 5)\<close> raises \<open>TimeoutError\<close>
  when a future has not completed at the deadline; the loop is not inside a \<open>try\<close>, so
  the exception leaves \<open>answer_question\<close> and the answers collected so far are lost.
\<close>

definition ensemble :: "world \<Rightarrow> memory \<Rightarrow> string \<Rightarrow> string \<Rightarrow> string list \<Rightarrow> string list \<Rightarrow> outcome" where
  "ensemble w mem q prompt active called =
     (let futures = map (\<lambda>p. (p, pool_call w p prompt SYSTEM)) active in
      if list_ex (\<lambda>(p, f). f = NotDone) futures
      then \<lparr>result = Inl TimeoutError, memory_after = mem, calls = called @ active\<rparr>
      else
        let completed = sort_key (\<lambda>(p, r). finish_rank w p)
                          (concat (map (\<lambda>(p, f). case f of Done r \<Rightarrow> [(p, r)] | NotDone \<Rightarrow> [])
                                       futures));
            (answers, used) = collect completed
        in if answers \<noteq> []
           then
             let final = vote_select answers;
                 provider_label =
                   (if length used > 1 then ''ensemble''
                    else (case used of u # _ \<Rightarrow> u | [] \<Rightarrow> ''unknown''))
             in \<lparr>result = Inr (single final provider_label used False),
                 memory_after = memory_add q final mem,
                 calls = called @ active\<rparr>
           else \<lparr>result = Inr (single NO_ANSWER ''none'' [] False),
                 memory_after = mem,
                 calls = called @ active\<rparr>)"

text \<open>Stage 4: the forced single call, then the fan-out.\<close>

definition model_stage :: "world \<Rightarrow> memory \<Rightarrow> string \<Rightarrow> string option \<Rightarrow> string \<Rightarrow> outcome" where
  "model_stage w mem q force_provider context =
     (let prompt = (if context \<noteq> []
                    then q @ [CHR 0x0A, CHR 0x0A] @ ''Context:'' @ [CHR 0x0A] @ context
                    else q);
          order = provider_order w force_provider;
          active = active_providers w order
      in case force_provider of
           None \<Rightarrow> ensemble w mem q prompt active []
         | Some f \<Rightarrow>
             if f \<noteq> [] \<and> f \<in> set active
             then
               (let text = (case direct_call w f prompt SYSTEM of
                              Raises \<Rightarrow> None
                            | Returns t \<Rightarrow> t)
                in case text of
                     None \<Rightarrow> ensemble w mem q prompt active [f]
                   | Some t \<Rightarrow>
                       if t \<noteq> []
                       then (let ans = strip_answer t in
                             \<lparr>result = Inr (single ans f [f] False),
                              memory_after = memory_add q ans mem,
                              calls = [f]\<rparr>)
                       else ensemble w mem q prompt active [f])
             else ensemble w mem q prompt active [])"

text \<open>
  \<open>answer_question(question, force_provider, context)\<close>. The pause
  \<open>time.sleep(min(DELIBERATE_MS, 1500) / 1000.0)\<close> has no effect on the result.
\<close>

definition answer_question :: "world \<Rightarrow> memory \<Rightarrow> string \<Rightarrow> string option \<Rightarrow> string \<Rightarrow> outcome" where
  "answer_question w mem question force_provider context =
     (let q = strip question;
          ql = lower q;
          m = math_try (sympy_eval w) ql
      in if m \<noteq> []
         then \<lparr>result = Inr (single m ''local-math'' [] False),
               memory_after = memory_add q m mem, calls = []\<rparr>
         else
           (case capital_lookup ql of
              Some ans_cap \<Rightarrow>
                \<lparr>result = Inr (single ans_cap ''local-facts'' [] False),
                 memory_after = memory_add q ans_cap mem, calls = []\<rparr>
            | None \<Rightarrow>
                (case facts_lookup ql of
                   Some v \<Rightarrow>
                     \<lparr>result = Inr (single v ''local-facts'' [] False),
                      memory_after = memory_add q v mem, calls = []\<rparr>
                 | None \<Rightarrow>
                     (case memory_lookup ql mem of
                        Some (qq, aa) \<Rightarrow>
                          \<lparr>result = Inr (single aa ''local-memory'' [] True),
                           memory_after = mem, calls = []\<rparr>
                      | None \<Rightarrow> model_stage w mem q force_provider context))))"

section \<open>Creative sampler: novelty\<close>

text \<open>\<open>str.split()\<close>: the maximal runs of characters that are not whitespace.\<close>

function split_ws :: "string \<Rightarrow> string list" where
  "split_ws [] = []"
| "split_ws (c # cs) =
     (if is_space c then split_ws cs
      else (c # takeWhile (\<lambda>x. \<not> is_space x) cs)
           # split_ws (dropWhile (\<lambda>x. \<not> is_space x) cs))"
  by pat_completeness auto
termination
  by (relation "measure length") (auto simp: length_dropWhile_le less_Suc_eq_le)

text \<open>\<open>" ".join(toks)\<close>.\<close>

fun join_sp :: "string list \<Rightarrow> string" where
  "join_sp [] = []"
| "join_sp [t] = t"
| "join_sp (t # ts) = t @ [CHR 0x20] @ join_sp ts"

text \<open>
  \<open>_shingles(text, k)\<close>. The \<open>Counter\<close> is kept as the list of grams it was built from:
  \<open>s[g]\<close> is \<open>count_list s g\<close>, \<open>s.keys()\<close> is \<open>remdups s\<close>, \<open>sum(s.values())\<close> is
  \<open>length s\<close>, and the counter is falsy exactly when the list is empty.
\<close>

definition shingles :: "string \<Rightarrow> nat \<Rightarrow> string list" where
  "shingles text k =
     (let t = lower (strip (collapse_ws text));
          toks = split_ws t
      in map (\<lambda>i. join_sp (take k (drop i toks))) [0 ..< length toks + 1 - k])"

text \<open>\<open>sum(min(s[g], ss[g]) for g in s.keys() if g in ss)\<close>.\<close>

definition common :: "string list \<Rightarrow> string list \<Rightarrow> nat" where
  "common s ss =
     sum_list (map (\<lambda>g. min (count_list s g) (count_list ss g))
                   (filter (\<lambda>g. g \<in> set ss) (remdups s)))"

text \<open>
  \<open>novelty_score\<close> skips the entries of the corpus that are the very object \<open>text\<close>
  (\<open>other is text\<close>), so a candidate is a pair of its address and its characters. The
  score is a Python float; the model computes it in the reals.
\<close>

type_synonym pystr = "nat \<times> string"

definition novelty_score :: "pystr \<Rightarrow> pystr list \<Rightarrow> real" where
  "novelty_score text corpus =
     (if snd text = [] then 0
      else
        let s = shingles (snd text) 4 in
        if s = [] then 0
        else
          let total = length s;
              overlap = sum_list (map (\<lambda>other. common s (shingles (snd other) 4))
                                      (filter (\<lambda>other. \<not> (snd other = [] \<or> fst other = fst text))
                                              corpus))
          in 1 / (1 + real overlap / real (max total 1)))"


section \<open>Example environments\<close>

text \<open>
  No credentials; SymPy rejects every expression; used where only the fast path runs.
\<close>

definition world_offline :: world where
  "world_offline =
     \<lparr>getenv = (\<lambda>name. None),
      sympy_eval = (\<lambda>expr. None),
      direct_call = (\<lambda>p prompt sys. Raises),
      pool_call = (\<lambda>p prompt sys. Done Raises),
      finish_rank = (\<lambda>p. 0)\<rparr>"

text \<open>
  All five credentials are set. Every call to \<open>openai\<close> raises; the other four providers
  answer \<open>Shakespeare\<close>.
\<close>

definition world_openai_down :: world where
  "world_openai_down =
     \<lparr>getenv = (\<lambda>name. if name \<in> set [''OPENAI_API_KEY'', ''ANTHROPIC_API_KEY'',
                                         ''GOOGLE_API_KEY'', ''MISTRAL_API_KEY'',
                                         ''COHERE_API_KEY'']
                        then Some ''key'' else None),
      sympy_eval = (\<lambda>expr. None),
      direct_call = (\<lambda>p prompt sys. if p = ''openai'' then Raises
                                      else Returns (Some ''Shakespeare'')),
      pool_call = (\<lambda>p prompt sys. if p = ''openai'' then Done Raises
                                    else Done (Returns (Some ''Shakespeare''))),
      finish_rank = (\<lambda>p. 0)\<rparr>"

text \<open>
  Only the OpenAI credential is set; the state of the pooled call at the deadline is the
  parameter.
\<close>

definition world_openai_only :: "future \<Rightarrow> world" where
  "world_openai_only f =
     \<lparr>getenv = (\<lambda>name. if name = ''OPENAI_API_KEY'' then Some ''key'' else None),
      sympy_eval = (\<lambda>expr. None),
      direct_call = (\<lambda>p prompt sys. Raises),
      pool_call = (\<lambda>p prompt sys. f),
      finish_rank = (\<lambda>p. 0)\<rparr>"

section \<open>The embedding on sample inputs\<close>

text \<open>
  The text helpers and the capital pattern on inputs traced by hand through the source:
  the question mark ends group 2, a second blank after \<open>of\<close> is given back to
  group 2 when nothing of the class follows, and a single blank is not enough.
\<close>

lemma text_helper_samples:
  "normalize_for_vote [CHR 0x60, CHR '' '', CHR ''A'', CHR 0x09, CHR 0x0A, CHR ''b'', CHR 0x60]
     = '' a b''
   \<and> strip_answer ''  Answer :  42  '' = ''42''
   \<and> strip_answer ''answer 42'' = ''answer 42''
   \<and> split_on CHR '','' ''a,,b,'' = [''a'', [], ''b'', []]
   \<and> shingles ''The quick  brown fox jumps'' 4
     = [''the quick brown fox'', ''quick brown fox jumps'']"
  by code_simp

lemma capital_pattern_samples:
  "search_capital ''what is the capital of kenya?'' = Some ''kenya''
   \<and> search_capital ''capital  city   of south africa'' = Some ''south africa''
   \<and> search_capital ''capital of  ?'' = Some '' ''
   \<and> search_capital ''capital of ?'' = None
   \<and> search_capital ''capital of ? capital of kenya'' = Some ''kenya''
   \<and> capital_lookup ''capital of kenya today'' = None"
  by code_simp

section \<open>Properties of the vote reconciler\<close>

lemma count_vote_blank: "normalize_for_vote raw = [] \<Longrightarrow> count_vote counts raw = counts"
  by (simp add: count_vote_def)

lemma foldl_count_vote_blank:
  "list_all (\<lambda>c. normalize_for_vote c = []) cs \<Longrightarrow> foldl count_vote acc cs = acc"
  by (induction cs arbitrary: acc) (simp_all add: count_vote_blank)

lemma map_of_None_keys: "map_of kvs k = None \<longleftrightarrow> k \<notin> fst ` set kvs"
  by (simp add: map_of_eq_None_iff)

lemma dict_set_fresh: "k \<notin> fst ` set kvs \<Longrightarrow> dict_set k v kvs = kvs @ [(k, v)]"
  by (induction kvs) auto

lemma dict_set_last:
  "k \<notin> fst ` set kvs \<Longrightarrow> dict_set k v (kvs @ [(k, v0)]) = kvs @ [(k, v)]"
  by (induction kvs) auto

lemma map_of_last: "k \<notin> fst ` set kvs \<Longrightarrow> map_of (kvs @ [(k, v0)]) k = Some v0"
  by (induction kvs) auto

text \<open>A candidate whose normal form is new opens a group of one vote at the end.\<close>

lemma count_vote_fresh:
  assumes "normalize_for_vote raw \<noteq> []" and "normalize_for_vote raw \<notin> fst ` set counts"
  shows "count_vote counts raw = counts @ [(normalize_for_vote raw, 1, raw)]"
proof -
  let ?n = "normalize_for_vote raw"
  have a: "map_of counts ?n = None" using assms(2) by (simp add: map_of_None_keys)
  have b: "dict_set ?n (0, raw) counts = counts @ [(?n, 0, raw)]"
    using assms(2) by (rule dict_set_fresh)
  have c: "map_of (counts @ [(?n, 0, raw)]) ?n = Some (0, raw)"
    using assms(2) by (rule map_of_last)
  have d: "dict_set ?n (0 + 1, raw) (counts @ [(?n, 0, raw)]) = counts @ [(?n, 0 + 1, raw)]"
    using assms(2) by (rule dict_set_last)
  show ?thesis
    using assms(1) a b c d by (simp add: count_vote_def Let_def del: map_of_append)
qed

lemma foldl_count_vote_distinct:
  assumes "distinct (map normalize_for_vote (votable cs))"
    and "normalize_for_vote ` set (votable cs) \<inter> fst ` set acc = {}"
  shows "foldl count_vote acc cs = acc @ map (\<lambda>c. (normalize_for_vote c, 1, c)) (votable cs)"
  using assms
proof (induction cs arbitrary: acc)
  case Nil
  then show ?case by simp
next
  case (Cons c cs)
  show ?case
  proof (cases "normalize_for_vote c = []")
    case True
    with Cons show ?thesis by (simp add: count_vote_blank)
  next
    case False
    from Cons.prems False have fresh: "normalize_for_vote c \<notin> fst ` set acc"
      by auto
    have step: "count_vote acc c = acc @ [(normalize_for_vote c, 1, c)]"
      using False fresh by (rule count_vote_fresh)
    from Cons.prems False have d: "distinct (map normalize_for_vote (votable cs))"
      and notin: "normalize_for_vote c \<notin> normalize_for_vote ` set (votable cs)"
      by auto
    from Cons.prems False notin
    have disj: "normalize_for_vote ` set (votable cs)
                  \<inter> fst ` set (acc @ [(normalize_for_vote c, 1, c)]) = {}"
      by auto
    show ?thesis
      using Cons.IH [OF d disj] False by (simp add: step)
  qed
qed

lemma tally_distinct:
  assumes "distinct (map normalize_for_vote candidates)"
  shows "tally candidates = map (\<lambda>c. (normalize_for_vote c, 1, c)) (votable candidates)"
proof -
  have "distinct (map normalize_for_vote (votable candidates))"
    using assms by (rule distinct_map_filter)
  then show ?thesis
    unfolding tally_def using foldl_count_vote_distinct [of candidates "[]"] by simp
qed

lemma sorted_le_last: "sorted xs \<Longrightarrow> x \<in> set xs \<Longrightarrow> x \<le> last xs"
  by (induction xs) auto

lemma last_filter_keep: "xs \<noteq> [] \<Longrightarrow> P (last xs) \<Longrightarrow> last (filter P xs) = last xs"
  by (induction xs) (auto simp: filter_empty_conv)

text \<open>
  The head of the ranking is an item of greatest key, and among the items of that key it
  is the one inserted first: the reversed sort is stable.
\<close>

lemma ranked_hd:
  assumes "counts \<noteq> []"
  shows "\<exists>b rest. ranked counts = b # rest \<and> b \<in> set counts
           \<and> (\<forall>x \<in> set counts. vote_key x \<le> vote_key b)
           \<and> hd (filter (\<lambda>x. vote_key x = vote_key b) counts) = b"
proof -
  let ?s = "sort_key vote_key (rev counts)"
  have ne: "?s \<noteq> []" using assms by (metis length_sort length_rev length_0_conv)
  define b where "b = last ?s"
  have r: "ranked counts = b # rev (butlast ?s)"
    using ne by (simp add: ranked_def b_def)
  have mem: "b \<in> set counts" using ne b_def by (metis last_in_set set_sort set_rev)
  have srt: "sorted (map vote_key ?s)" by (rule sorted_sort_key)
  have mx: "\<forall>x \<in> set counts. vote_key x \<le> vote_key b"
  proof
    fix x assume "x \<in> set counts"
    then have "vote_key x \<in> set (map vote_key ?s)" by simp
    moreover have "last (map vote_key ?s) = vote_key b" using ne by (simp add: b_def last_map)
    ultimately show "vote_key x \<le> vote_key b"
      using sorted_le_last [OF srt] by metis
  qed
  have "last (filter (\<lambda>y. vote_key y = vote_key b) ?s) = b"
    using ne by (simp add: b_def last_filter_keep)
  then have "last (filter (\<lambda>y. vote_key y = vote_key b) (rev counts)) = b"
    by (simp add: sort_key_stable)
  then have "hd (filter (\<lambda>x. vote_key x = vote_key b) counts) = b"
    by (simp add: rev_filter [symmetric] last_rev)
  with r mem mx show ?thesis by blast
qed

text \<open>
  Claim C3, as the code has it. For the candidates \<open>Paris\<close>, \<open>paris.\<close>, \<open>London\<close> the
  normal forms are \<open>paris\<close>, \<open>paris.\<close> and \<open>london\<close>: trimming, lower-casing, deleting
  backticks and collapsing whitespace leave the full stop in place. There are three
  groups of one vote each, and the tie-break by length returns \<open>paris.\<close>, the first of
  the two raw texts of length six. Without the full stop the first two candidates share
  the group \<open>paris\<close> of two votes, whose first raw text \<open>Paris\<close> wins over \<open>London\<close>.
\<close>

theorem paris_vote:
  "tally [''Paris'', ''paris.'', ''London'']
     = [(''paris'', 1, ''Paris''), (''paris.'', 1, ''paris.''), (''london'', 1, ''London'')]
   \<and> vote_select [''Paris'', ''paris.'', ''London''] = ''paris.''
   \<and> tally [''Paris'', ''paris'', ''London'']
     = [(''paris'', 2, ''Paris''), (''london'', 1, ''London'')]
   \<and> vote_select [''Paris'', ''paris'', ''London''] = ''Paris''"
  by code_simp

text \<open>
  Claim C3 as stated fails: \<open>Paris\<close> and \<open>paris.\<close> have different normal forms, and no
  group of the tally has two votes.
\<close>

theorem paris_groups_counterexample:
  "normalize_for_vote ''Paris'' = ''paris''
   \<and> normalize_for_vote ''paris.'' = ''paris.''
   \<and> map (\<lambda>kv. fst (snd kv)) (tally [''Paris'', ''paris.'', ''London'']) = [1, 1, 1]"
  by code_simp

text \<open>
  Claim C6, amended. When no two candidates share a normal form and at least one
  candidate has a non-empty normal form, \<open>_vote_select\<close> returns one of the candidates
  with a non-empty normal form, unmodified; no such candidate is longer, and among those
  of the same length it is the first in the list. Candidates whose normal form is empty
  take no part in the vote, whatever their length.
\<close>

theorem vote_select_no_duplicates:
  assumes "distinct (map normalize_for_vote candidates)"
    and "votable candidates \<noteq> []"
  shows "vote_select candidates \<in> set (votable candidates)
       \<and> (\<forall>c \<in> set (votable candidates). length c \<le> length (vote_select candidates))
       \<and> hd (filter (\<lambda>c. length c = length (vote_select candidates)) (votable candidates))
           = vote_select candidates"
proof -
  let ?g = "\<lambda>c. (normalize_for_vote c, 1::nat, c)"
  have t: "tally candidates = map ?g (votable candidates)"
    using assms(1) by (rule tally_distinct)
  then have ne: "tally candidates \<noteq> []" using assms(2) by simp
  from ranked_hd [OF ne] obtain b rest where
    r: "ranked (tally candidates) = b # rest" and
    mem: "b \<in> set (tally candidates)" and
    mx: "\<forall>x \<in> set (tally candidates). vote_key x \<le> vote_key b" and
    fst: "hd (filter (\<lambda>x. vote_key x = vote_key b) (tally candidates)) = b"
    by blast
  from assms(2) obtain c0 cs0 where cands: "candidates = c0 # cs0"
    by (cases candidates) auto
  have sel: "vote_select candidates = snd (snd b)"
    using ne r by (simp add: vote_select_def cands Let_def)
  from mem t obtain w where w: "w \<in> set (votable candidates)" and b: "b = ?g w" by auto
  have win: "vote_select candidates = w" using sel b by simp
  have key: "\<And>n k c. vote_key (n, k, c) = (k, length c)" by (simp add: vote_key_def)
  have mx': "\<forall>c \<in> set (votable candidates). length c \<le> length w"
  proof
    fix c assume "c \<in> set (votable candidates)"
    then have "?g c \<in> set (tally candidates)" using t by simp
    with mx have "vote_key (?g c) \<le> vote_key b" by blast
    then show "length c \<le> length w" by (simp add: key b)
  qed
  have "filter (\<lambda>x. vote_key x = vote_key b) (tally candidates)
          = map ?g (filter (\<lambda>c. length c = length w) (votable candidates))"
    by (simp add: t filter_map comp_def key b)
  moreover have "filter (\<lambda>c. length c = length w) (votable candidates) \<noteq> []"
    using w by (auto simp: filter_empty_conv)
  ultimately have "?g (hd (filter (\<lambda>c. length c = length w) (votable candidates))) = b"
    using fst by (simp add: hd_map)
  then have "hd (filter (\<lambda>c. length c = length w) (votable candidates)) = w"
    using b by simp
  with w mx' win show ?thesis by simp
qed

theorem vote_select_no_duplicates_witness:
  "distinct (map normalize_for_vote [''A'', ''AB'', ''ABC''])
   \<and> votable [''A'', ''AB'', ''ABC''] = [''A'', ''AB'', ''ABC'']
   \<and> vote_select [''A'', ''AB'', ''ABC''] = ''ABC''
   \<and> vote_select [''A'', ''AB'', ''ABC''] \<in> set (votable [''A'', ''AB'', ''ABC''])
   \<and> length ''AB'' \<le> length (vote_select [''A'', ''AB'', ''ABC''])"
proof -
  have d: "distinct (map normalize_for_vote [''A'', ''AB'', ''ABC''])" by code_simp
  have v: "votable [''A'', ''AB'', ''ABC''] = [''A'', ''AB'', ''ABC'']" by code_simp
  then have n: "votable [''A'', ''AB'', ''ABC''] \<noteq> []" by simp
  have e: "vote_select [''A'', ''AB'', ''ABC''] = ''ABC''" by code_simp
  from vote_select_no_duplicates [OF d n] d v e show ?thesis by simp
qed

text \<open>
  Claim C6 as stated fails on a list with a candidate of empty normal form: the normal
  forms of the two candidates below differ, the first candidate (three backticks) is the
  longest, and the second is returned.
\<close>

theorem vote_select_longest_counterexample:
  "distinct (map normalize_for_vote [[CHR 0x60, CHR 0x60, CHR 0x60], ''ab''])
   \<and> vote_select [[CHR 0x60, CHR 0x60, CHR 0x60], ''ab''] = ''ab''
   \<and> length ''ab'' < length [CHR 0x60, CHR 0x60, CHR 0x60]"
  by code_simp

text \<open>
  Claim C10. When the list is not empty and every candidate has an empty normal form,
  \<open>_vote_select\<close> returns the first candidate as it is.
\<close>

theorem vote_select_all_blank:
  assumes "list_all (\<lambda>x. normalize_for_vote x = []) (c # cs)"
  shows "vote_select (c # cs) = c"
  using foldl_count_vote_blank [OF assms, of "[]"]
  by (simp add: vote_select_def tally_def del: foldl_Cons)

theorem vote_select_all_blank_witness:
  "list_all (\<lambda>x. normalize_for_vote x = []) [''   '', [CHR 0x60, CHR 0x60]]
   \<and> vote_select [''   '', [CHR 0x60, CHR 0x60]] = ''   ''"
proof -
  have h: "list_all (\<lambda>x. normalize_for_vote x = []) [''   '', [CHR 0x60, CHR 0x60]]"
    by code_simp
  show ?thesis using h vote_select_all_blank [OF h] by simp
qed

section \<open>Properties of the short-term memory\<close>

lemma memory_add_cases:
  "memory_add q a mem =
     (if q = [] \<or> a = [] then mem
      else if length mem < 50 then mem @ [(q, a)]
      else tl (mem @ [(q, a)]))"
  by (auto simp: memory_add_def deque_append_def Let_def)

lemma memory_add_length: "length mem \<le> 50 \<Longrightarrow> length (memory_add q a mem) \<le> 50"
  by (auto simp: memory_add_cases)

text \<open>Every stored pair has a non-empty question and a non-empty answer.\<close>

lemma memory_add_keeps_nonempty:
  assumes "list_all (\<lambda>p. fst p \<noteq> [] \<and> snd p \<noteq> []) mem"
  shows "list_all (\<lambda>p. fst p \<noteq> [] \<and> snd p \<noteq> []) (memory_add q a mem)"
proof -
  have "set (tl (mem @ [(q, a)])) \<subseteq> set (mem @ [(q, a)])"
    by (cases "mem @ [(q, a)]") auto
  then show ?thesis
    using assms by (auto simp: memory_add_cases list_all_iff simp del: tl_append2)
qed

text \<open>
  Replaying a sequence of \<open>memory_add\<close> calls on a buffer within capacity leaves the last
  fifty of the old pairs followed by the new pairs that have both parts non-empty.
\<close>

lemma memory_replay:
  assumes "length mem \<le> 50"
  shows "foldl (\<lambda>m p. memory_add (fst p) (snd p) m) mem ps
           = (let xs = mem @ filter (\<lambda>p. fst p \<noteq> [] \<and> snd p \<noteq> []) ps
              in drop (length xs - 50) xs)"
  using assms
proof (induction ps arbitrary: mem)
  case Nil
  then show ?case by simp
next
  case (Cons p ps)
  let ?keep = "\<lambda>p. fst p \<noteq> [] \<and> snd p \<noteq> []"
  let ?xs = "filter ?keep ps"
  have len: "length (memory_add (fst p) (snd p) mem) \<le> 50"
    using Cons.prems by (rule memory_add_length)
  note IH = Cons.IH [OF len]
  show ?case
  proof (cases "?keep p")
    case False
    then have "memory_add (fst p) (snd p) mem = mem" by (auto simp: memory_add_cases)
    with IH False show ?thesis by auto
  next
    case True
    show ?thesis
    proof (cases "length mem < 50")
      case True
      with \<open>?keep p\<close> have "memory_add (fst p) (snd p) mem = mem @ [p]"
        by (simp add: memory_add_cases)
      with IH \<open>?keep p\<close> show ?thesis by simp
    next
      case False
      with Cons.prems have l: "length mem = 50" by simp
      then obtain m0 ms where m: "mem = m0 # ms" and lms: "length ms = 49"
        by (cases mem) auto
      from False \<open>?keep p\<close> have "memory_add (fst p) (snd p) mem = ms @ [p]"
        by (simp add: memory_add_cases m)
      moreover have "drop (length ((ms @ [p]) @ ?xs) - 50) ((ms @ [p]) @ ?xs)
                       = drop (length ((m0 # ms) @ p # ?xs) - 50) ((m0 # ms) @ p # ?xs)"
        using lms by (simp del: drop_append)
      ultimately show ?thesis
        using IH \<open>?keep p\<close> by (simp add: m Let_def del: drop_append)
    qed
  qed
qed

text \<open>
  Claim C9. On a buffer within its capacity of fifty, \<open>memory_add q a\<close> changes nothing
  when \<open>q\<close> or \<open>a\<close> is empty; otherwise it appends the pair, dropping the oldest pair
  when the buffer is full. The buffer stays within capacity, and after any sequence of
  calls on the empty buffer it holds exactly the last fifty of the pairs with both parts
  non-empty, in call order.
\<close>

theorem memory_add_ring:
  assumes "length mem \<le> 50"
  shows "memory_add q a mem =
           (if q = [] \<or> a = [] then mem
            else if length mem < 50 then mem @ [(q, a)]
            else tl mem @ [(q, a)])
       \<and> length (memory_add q a mem) \<le> 50
       \<and> foldl (\<lambda>m p. memory_add (fst p) (snd p) m) [] ps
           = (let xs = filter (\<lambda>p. fst p \<noteq> [] \<and> snd p \<noteq> []) ps
              in drop (length xs - 50) xs)"
proof -
  have "memory_add q a mem =
           (if q = [] \<or> a = [] then mem
            else if length mem < 50 then mem @ [(q, a)]
            else tl mem @ [(q, a)])"
    using assms by (cases mem) (auto simp: memory_add_cases)
  moreover have "length (memory_add q a mem) \<le> 50" using assms by (rule memory_add_length)
  moreover have "foldl (\<lambda>m p. memory_add (fst p) (snd p) m) [] ps
           = (let xs = filter (\<lambda>p. fst p \<noteq> [] \<and> snd p \<noteq> []) ps
              in drop (length xs - 50) xs)"
    using memory_replay [of "[]" ps] by simp
  ultimately show ?thesis by blast
qed

theorem memory_add_ring_witness:
  "length (replicate 50 (''x'', ''y'')) \<le> 50
   \<and> memory_add ''q'' ''a'' (replicate 50 (''x'', ''y''))
       = replicate 49 (''x'', ''y'') @ [(''q'', ''a'')]
   \<and> memory_add [] ''a'' (replicate 50 (''x'', ''y'')) = replicate 50 (''x'', ''y'')
   \<and> length (memory_add ''q'' ''a'' (replicate 50 (''x'', ''y''))) \<le> 50
   \<and> foldl (\<lambda>m p. memory_add (fst p) (snd p) m) []
         [(''q1'', ''a1''), ([], ''a2''), (''q3'', [])] = [(''q1'', ''a1'')]"
proof -
  have h: "length (replicate 50 (''x'', ''y'')) \<le> 50" by simp
  have e1: "memory_add ''q'' ''a'' (replicate 50 (''x'', ''y''))
              = replicate 49 (''x'', ''y'') @ [(''q'', ''a'')]"
    by code_simp
  have e2: "memory_add [] ''a'' (replicate 50 (''x'', ''y'')) = replicate 50 (''x'', ''y'')"
    by (simp add: memory_add_def)
  have e3: "foldl (\<lambda>m p. memory_add (fst p) (snd p) m) []
         [(''q1'', ''a1''), ([], ''a2''), (''q3'', [])] = [(''q1'', ''a1'')]"
    by code_simp
  from memory_add_ring [OF h, of "''q''" "''a''" "[]"]
  have "length (memory_add ''q'' ''a'' (replicate 50 (''x'', ''y''))) \<le> 50" by blast
  with h e1 e2 e3 show ?thesis by blast
qed

section \<open>Properties of the math stage\<close>

lemma endswith_dot0: "endswith s ''.0'' \<Longrightarrow> s = take (length s - 2) s @ ''.0''"
  by (metis append_take_drop_id endswith_def length_Cons list.size(3) numeral_2_eq_2)

lemma math_try_guarded:
  assumes "expr \<noteq> []" "list_all (\<lambda>c. c \<in> set ALLOWED_MATH) expr"
    "list_ex (\<lambda>op. op \<in> set expr) ''+-*/%''"
  shows "math_try ev expr =
           (case ev expr of
              None \<Rightarrow> []
            | Some s \<Rightarrow> if endswith s ''.0'' then take (length s - 2) s else s)"
  using assms by (simp add: math_try_def)

lemma count_dot: "count_list (xs @ ''.0'') CHR ''.'' = Suc (count_list xs CHR ''.'')"
  by (induction xs) auto

lemma endswith_has_dot: "endswith t ''.0'' \<Longrightarrow> 0 < count_list t CHR ''.''"
  using endswith_dot0 [of t] count_dot [of "take (length t - 2) t"] by simp


text \<open>
  The stage's own logic, for every evaluator. For a non-empty string over the allowed
  characters that contains an operator, the stage reports no match when the evaluation
  raises; when the evaluation prints \<open>s\<close>, the result is \<open>s\<close> without one trailing
  \<open>.0\<close>, and \<open>s\<close> itself when it does not end in \<open>.0\<close>. Any other string never
  matches.
\<close>

lemma math_try_result:
  assumes "expr \<noteq> []" "list_all (\<lambda>c. c \<in> set ALLOWED_MATH) expr"
    "list_ex (\<lambda>op. op \<in> set expr) ''+-*/%''"
  shows "(ev expr = None \<longrightarrow> math_try ev expr = [])
       \<and> (\<forall>s. ev expr = Some s \<longrightarrow>
              (if endswith s ''.0'' then s = math_try ev expr @ ''.0''
               else math_try ev expr = s)
              \<and> (count_list s CHR ''.'' \<le> 1 \<longrightarrow> \<not> endswith (math_try ev expr) ''.0''))
       \<and> (\<forall>e. e = [] \<or> \<not> list_all (\<lambda>c. c \<in> set ALLOWED_MATH) e
                \<or> \<not> list_ex (\<lambda>op. op \<in> set e) ''+-*/%'' \<longrightarrow> math_try ev e = [])"
proof (intro conjI allI impI)
  assume "ev expr = None"
  then show "math_try ev expr = []" by (simp add: math_try_guarded [OF assms])
next
  fix s assume s: "ev expr = Some s"
  show "if endswith s ''.0'' then s = math_try ev expr @ ''.0'' else math_try ev expr = s"
    using endswith_dot0 [of s] by (simp add: math_try_guarded [OF assms] s)
next
  fix s assume s: "ev expr = Some s" and one: "count_list s CHR ''.'' \<le> 1"
  show "\<not> endswith (math_try ev expr) ''.0''"
  proof (cases "endswith s ''.0''")
    case False
    then show ?thesis by (simp add: math_try_guarded [OF assms] s)
  next
    case True
    let ?r = "take (length s - 2) s"
    have "s = ?r @ ''.0''" using True by (rule endswith_dot0)
    then have "count_list s CHR ''.'' = Suc (count_list ?r CHR ''.'')"
      using count_dot [of ?r] by simp
    with one have "count_list ?r CHR ''.'' = 0" by simp
    then have "\<not> endswith ?r ''.0''" using endswith_has_dot [of ?r] by auto
    with True show ?thesis by (simp add: math_try_guarded [OF assms] s)
  qed
next
  fix e
  assume "e = [] \<or> \<not> list_all (\<lambda>c. c \<in> set ALLOWED_MATH) e
            \<or> \<not> list_ex (\<lambda>op. op \<in> set e) ''+-*/%''"
  then show "math_try ev e = []" by (auto simp: math_try_def)
qed

text \<open>
  Claim C2 at a failing input. SymPy prints the value of \<open>evalf()\<close> with fifteen
  significant digits: \<open>2.00000000000000\<close> for \<open>6/3\<close> and \<open>4.00000000000000\<close> for
  \<open>2+2\<close>. Neither ends in \<open>.0\<close>, so the suffix test of the stage does not fire and
  the stage returns the fifteen digits, not \<open>2\<close> and \<open>4\<close>.
\<close>

theorem math_try_evalf_digits:
  "math_try (\<lambda>e. if e = ''6/3'' then Some ''2.00000000000000''
                 else if e = ''2+2'' then Some ''4.00000000000000'' else None) ''6/3''
     = ''2.00000000000000''
   \<and> math_try (\<lambda>e. if e = ''6/3'' then Some ''2.00000000000000''
                   else if e = ''2+2'' then Some ''4.00000000000000'' else None) ''2+2''
     = ''4.00000000000000''
   \<and> \<not> endswith ''2.00000000000000'' ''.0''
   \<and> \<not> endswith ''4.00000000000000'' ''.0''"
  by code_simp

section \<open>Properties of the fast path\<close>










section \<open>Properties of the fan-out\<close>

lemma provider_order_forced:
  "f \<in> set PROVIDER_FUNCS \<Longrightarrow> provider_order w (Some f) = [f]"
  by (auto simp: provider_order_def PROVIDER_FUNCS_def)

lemma active_providers_subset: "set (active_providers w order) \<subseteq> set order"
  by (auto simp: active_providers_def)

lemma calls_ensemble: "calls (ensemble w mem q prompt active called) = called @ active"
  by (simp add: ensemble_def Let_def split: prod.splits)

text \<open>
  With a known provider forced, the order is that provider alone, so the active set and
  with it the fan-out that follows a failed forced call hold no other provider.
\<close>

lemma forced_calls_only_forced:
  assumes "f \<in> set PROVIDER_FUNCS"
  shows "set (calls (model_stage w mem q (Some f) ctx)) \<subseteq> {f}"
proof -
  have "set (active_providers w (provider_order w (Some f))) \<subseteq> {f}"
    using active_providers_subset [of w "[f]"] by (simp add: provider_order_forced [OF assms])
  then show ?thesis
    by (auto simp: model_stage_def Let_def calls_ensemble
             split: call_result.splits option.splits)
qed

text \<open>
  Claim C1 at a failing input. All five credentials are set and \<open>openai\<close> is forced; its
  call raises. The fan-out that follows runs over the active set computed from the
  forced order, which is \<open>openai\<close> alone: \<open>openai\<close> is called a second time, no other
  provider is called, and the answer is the sentinel, although without forcing the same
  four other providers answer.
\<close>

theorem forced_fallback_single_provider:
  "active_providers world_openai_down (provider_order world_openai_down None)
     = [''openai'', ''anthropic'', ''google'', ''mistral'', ''cohere'']
   \<and> active_providers world_openai_down (provider_order world_openai_down (Some ''openai''))
     = [''openai'']
   \<and> answer_question world_openai_down [] ''who wrote hamlet'' (Some ''openai'') []
     = \<lparr>result = Inr (single NO_ANSWER ''none'' [] False), memory_after = [],
        calls = [''openai'', ''openai'']\<rparr>
   \<and> answer_question world_openai_down [] ''who wrote hamlet'' None []
     = \<lparr>result = Inr (single ''Shakespeare'' ''ensemble''
                         [''anthropic'', ''google'', ''mistral'', ''cohere''] False),
        memory_after = [(''who wrote hamlet'', ''Shakespeare'')],
        calls = [''openai'', ''anthropic'', ''google'', ''mistral'', ''cohere'']\<rparr>"
  by code_simp

lemma collect_unusable:
  "list_all (\<lambda>(p, r). r = Raises \<or> r = Returns None \<or> r = Returns (Some [])) cs
   \<Longrightarrow> collect cs = ([], [])"
  by (induction cs) (auto split: call_result.splits option.splits)

lemma ensemble_no_active:
  "ensemble w mem q prompt [] called
     = \<lparr>result = Inr (single NO_ANSWER ''none'' [] False), memory_after = mem,
        calls = called\<rparr>"
  by (simp add: ensemble_def)

text \<open>
  When every pooled call has completed by the deadline and none has produced a non-empty
  text, the fan-out returns the sentinel.
\<close>

lemma ensemble_all_unusable:
  assumes "list_all (\<lambda>p. pool_call w p prompt SYSTEM \<in> set [Done Raises, Done (Returns None),
                                                       Done (Returns (Some []))]) active"
  shows "ensemble w mem q prompt active called
     = \<lparr>result = Inr (single NO_ANSWER ''none'' [] False), memory_after = mem,
        calls = called @ active\<rparr>"
proof -
  let ?futures = "map (\<lambda>p. (p, pool_call w p prompt SYSTEM)) active"
  let ?done = "concat (map (\<lambda>(p, f). case f of Done r \<Rightarrow> [(p, r)] | NotDone \<Rightarrow> []) ?futures)"
  have nd: "\<not> list_ex (\<lambda>(p, f). f = NotDone) ?futures"
    using assms by (induction active) auto
  have "list_all (\<lambda>(p, r). r = Raises \<or> r = Returns None \<or> r = Returns (Some [])) ?done"
    using assms by (induction active) auto
  then have "list_all (\<lambda>(p, r). r = Raises \<or> r = Returns None \<or> r = Returns (Some []))
               (sort_key (\<lambda>(p, r). finish_rank w p) ?done)"
    by (simp add: list_all_iff)
  then have "collect (sort_key (\<lambda>(p, r). finish_rank w p) ?done) = ([], [])"
    by (rule collect_unusable)
  with nd show ?thesis by (simp add: ensemble_def Let_def)
qed

text \<open>
  Claim C7 at a failing input. One provider is active and its pooled call has not
  completed when the deadline \<open>TIMEOUT_S + 5\<close> of \<open>as_completed\<close> passes: the run ends
  with \<open>TimeoutError\<close>, not with the sentinel. With no credential at all, and with the
  one provider failing in time, the run does return the sentinel.
\<close>

theorem pending_provider_raises:
  "answer_question (world_openai_only NotDone) [] ''who wrote hamlet'' None []
     = \<lparr>result = Inl TimeoutError, memory_after = [], calls = [''openai'']\<rparr>
   \<and> answer_question (world_openai_only (Done Raises)) [] ''who wrote hamlet'' None []
     = \<lparr>result = Inr (single NO_ANSWER ''none'' [] False), memory_after = [],
        calls = [''openai'']\<rparr>
   \<and> answer_question world_offline [] ''who wrote hamlet'' None []
     = \<lparr>result = Inr (single NO_ANSWER ''none'' [] False), memory_after = [], calls = []\<rparr>"
  by code_simp

section \<open>Properties of the adapters' results\<close>

lemma anthropic_chat_not_empty: "anthropic_chat key exchange \<noteq> Returns (Some [])"
  by (auto simp: anthropic_chat_def split: option.splits http.splits json.splits)

text \<open>
  The joined text of a list of parts: defined when every step of the generator is, and
  then the texts in order.
\<close>

lemma join_parts_char:
  "join_parts ps =
     (if list_all (\<lambda>p. part_text p \<noteq> None) ps
      then Some (concat (map (\<lambda>p. the (part_text p)) ps))
      else None)"
  by (induction ps) (auto split: option.splits)

text \<open>
  With a credential and a response, the adapter returns a text only for a status below
  400, a body that is an object, a \<open>content\<close> that is an array, and parts that join to
  a non-empty text; in every other case it returns \<open>None\<close>.
\<close>

lemma anthropic_chat_response:
  "anthropic_chat (Some (k # ks)) (Response n body) =
     (if 400 \<le> n then Returns None
      else
        (case body of
           Some (JObj kvs) \<Rightarrow>
             (case map_of kvs ''content'' of
                None \<Rightarrow> Returns None
              | Some (JArr ps) \<Rightarrow>
                  (case join_parts ps of
                     Some (c # cs) \<Rightarrow> Returns (Some (c # cs))
                   | _ \<Rightarrow> Returns None)
              | Some _ \<Rightarrow> Returns None)
         | _ \<Rightarrow> Returns None))"
  by (auto simp: anthropic_chat_def split: option.splits json.splits list.splits)

lemma anthropic_chat_no_raise: "anthropic_chat key (Response n body) \<noteq> Raises"
  by (auto simp: anthropic_chat_def split: option.splits json.splits)

lemma anthropic_chat_samples:
  "anthropic_chat (Some ''key'') (Response 200 (Some (JArr []))) = Returns None
   \<and> anthropic_chat (Some ''key'') (Response 200 (Some (JObj [(''content'', JStr ''oops'')])))
     = Returns None
   \<and> anthropic_chat (Some ''key'') (Response 200 (Some (JObj [(''content'', JArr [JStr ''x''])])))
     = Returns None
   \<and> anthropic_chat (Some ''key'')
        (Response 200 (Some (JObj [(''content'',
           JArr [JObj [(''type'', JStr ''text''), (''text'', JNum 3)]])])))
     = Returns None
   \<and> anthropic_chat (Some ''key'')
        (Response 200 (Some (JObj [(''content'',
           JArr [JObj [(''type'', JStr ''text''), (''text'', JStr ''hi'')],
                 JObj [(''type'', JStr ''tool_use'')]])])))
     = Returns (Some ''hi'')"
  by code_simp

text \<open>
  Claim C4, amended. An empty completion is treated as absence. In the loop of the
  fan-out a response that is the empty string, a response \<open>None\<close> and a raised exception
  all leave the answers and the providers used as they are, while a non-empty response
  adds its cleaned text and its provider. The Anthropic adapter never returns the empty
  string. It returns \<open>None\<close> without a credential, on a status of 400 or more, on a
  body that is not JSON and on a malformed payload: a body that is no object, a
  \<open>content\<close> that is no array, a part that is no object, or a text part whose text is no
  string. It also returns \<open>None\<close> for an empty completion, that is when the parts join
  to the empty text. Once there is a response it never raises; only a transport error
  raises out of it.
\<close>

theorem empty_response_is_absent:
  "collect ((p, Returns (Some [])) # rest) = collect rest
   \<and> collect ((p, Returns None) # rest) = collect rest
   \<and> collect ((p, Raises) # rest) = collect rest
   \<and> collect ((p, Returns (Some (c # cs))) # rest)
       = (strip_answer (c # cs) # fst (collect rest), p # snd (collect rest))
   \<and> anthropic_chat key exchange \<noteq> Returns (Some [])
   \<and> anthropic_chat None exchange = Returns None
   \<and> anthropic_chat (Some []) exchange = Returns None
   \<and> anthropic_chat (Some (k # ks)) (Response (400 + n) body) = Returns None
   \<and> anthropic_chat (Some (k # ks)) (Response n None) = Returns None
   \<and> anthropic_chat (Some (k # ks)) TransportError = Raises
   \<and> anthropic_chat key (Response n body) \<noteq> Raises
   \<and> anthropic_chat (Some (k # ks)) (Response n body) =
       (if 400 \<le> n then Returns None
        else
          (case body of
             Some (JObj kvs) \<Rightarrow>
               (case map_of kvs ''content'' of
                  None \<Rightarrow> Returns None
                | Some (JArr ps) \<Rightarrow>
                    (case join_parts ps of
                       Some (t # ts) \<Rightarrow> Returns (Some (t # ts))
                     | _ \<Rightarrow> Returns None)
                | Some _ \<Rightarrow> Returns None)
           | _ \<Rightarrow> Returns None))
   \<and> join_parts parts =
       (if list_all (\<lambda>part. part_text part \<noteq> None) parts
        then Some (concat (map (\<lambda>part. the (part_text part)) parts))
        else None)
   \<and> part_text JNull = None \<and> part_text (JBool b) = None \<and> part_text (JNum i) = None
   \<and> part_text (JStr x) = None \<and> part_text (JArr xs) = None
   \<and> part_text (JObj flds) =
       (if map_of flds ''type'' = Some (JStr ''text'')
        then (case map_of flds ''text'' of
                None \<Rightarrow> Some []
              | Some (JStr t) \<Rightarrow> Some t
              | Some _ \<Rightarrow> None)
        else Some [])"
  using anthropic_chat_not_empty [of key exchange] anthropic_chat_no_raise [of key n body]
    anthropic_chat_response [of k ks n body] join_parts_char [of parts]
  by (simp add: anthropic_chat_def split: prod.splits)

text \<open>
  Claim C4 as stated fails: the only active provider completes with the empty string,
  and the run returns the sentinel with no provider used. A well-formed Anthropic reply
  whose only text part is empty comes back as \<open>None\<close>.
\<close>

theorem empty_completion_counterexample:
  "answer_question (world_openai_only (Done (Returns (Some [])))) []
       ''who wrote hamlet'' None []
     = \<lparr>result = Inr (single NO_ANSWER ''none'' [] False), memory_after = [],
        calls = [''openai'']\<rparr>
   \<and> anthropic_chat (Some ''key'')
        (Response 200 (Some (JObj [(''content'',
           JArr [JObj [(''type'', JStr ''text''), (''text'', JStr [])]])])))
     = Returns None"
  by code_simp

section \<open>Properties of the novelty score\<close>

lemma common_disjoint: "set ss \<inter> set s = {} \<Longrightarrow> common s ss = 0"
  by (auto simp: common_def filter_empty_conv)

lemma common_self: "common s s = length s"
proof -
  have "filter (\<lambda>g. g \<in> set s) (remdups s) = remdups s"
    by (simp add: filter_id_conv)
  then have "common s s = sum_list (map (count_list s) (remdups s))"
    by (simp add: common_def)
  also have "\<dots> = sum (count_list s) (set s)"
    by (simp add: sum_list_distinct_conv_sum_set)
  also have "\<dots> = length s" by (simp add: sum_count_set)
  finally show ?thesis .
qed

lemma sum_list_all_zero: "(\<And>x. x \<in> set xs \<Longrightarrow> f x = 0) \<Longrightarrow> sum_list (map f xs) = (0::nat)"
  by (induction xs) auto

lemma novelty_no_shingles: "shingles (snd t) 4 = [] \<Longrightarrow> novelty_score t corpus = 0"
  by (simp add: novelty_score_def)

lemma shingles_Nil [simp]: "shingles [] k = (if k \<le> 1 then replicate (1 - k) [] else [])"
  by (cases k) (simp_all add: shingles_def strip_def lower_def)

lemma novelty_zero_overlap:
  assumes "shingles (snd u) 4 \<noteq> []"
    and "\<forall>other \<in> set corpus. fst other \<noteq> fst u
           \<longrightarrow> set (shingles (snd other) 4) \<inter> set (shingles (snd u) 4) = {}"
  shows "novelty_score u corpus = 1"
proof -
  let ?s = "shingles (snd u) 4"
  let ?others = "filter (\<lambda>other. \<not> (snd other = [] \<or> fst other = fst u)) corpus"
  have ne: "snd u \<noteq> []" using assms(1) by auto
  have "\<forall>other \<in> set ?others. common ?s (shingles (snd other) 4) = 0"
  proof
    fix other assume "other \<in> set ?others"
    then have "other \<in> set corpus" and "fst other \<noteq> fst u" by simp_all
    with assms(2) have "set (shingles (snd other) 4) \<inter> set ?s = {}" by blast
    then show "common ?s (shingles (snd other) 4) = 0" by (rule common_disjoint)
  qed
  then have ov0: "sum_list (map (\<lambda>other. common ?s (shingles (snd other) 4)) ?others) = 0"
    by (intro sum_list_all_zero) blast
  show ?thesis
    unfolding novelty_score_def Let_def
    by (simp only: ov0 ne assms(1) if_False) simp
qed

lemma novelty_duplicate:
  assumes "other \<in> set corpus" "fst other \<noteq> fst d" "snd other = snd d"
  shows "novelty_score d corpus \<le> 1 / 2"
proof (cases "snd d = [] \<or> shingles (snd d) 4 = []")
  case True
  then show ?thesis by (auto simp: novelty_score_def)
next
  case False
  let ?s = "shingles (snd d) 4"
  let ?others = "filter (\<lambda>other. \<not> (snd other = [] \<or> fst other = fst d)) corpus"
  let ?overlap = "sum_list (map (\<lambda>other. common ?s (shingles (snd other) 4)) ?others)"
  have "other \<in> set ?others" using assms False by simp
  then have "common ?s (shingles (snd other) 4)
               \<in> (\<lambda>other. common ?s (shingles (snd other) 4)) ` set ?others"
    by (rule imageI)
  then have "common ?s (shingles (snd other) 4)
               \<in> set (map (\<lambda>other. common ?s (shingles (snd other) 4)) ?others)"
    by (simp only: set_map)
  then have "common ?s (shingles (snd other) 4) \<le> ?overlap"
    by (rule member_le_sum_list) simp
  then have le: "length ?s \<le> ?overlap" by (simp add: assms(3) common_self)
  have pos: "0 < length ?s" using False by simp
  have "1 \<le> real ?overlap / real (length ?s)"
    using le pos by (simp add: le_divide_eq)
  then have "1 / (1 + real ?overlap / real (length ?s)) \<le> 1 / 2"
    by (simp add: divide_le_eq)
  moreover have "max (length ?s) 1 = length ?s" using pos by linarith
  ultimately show ?thesis using False by (simp add: novelty_score_def Let_def)
qed

text \<open>
  Claim C8, amended. A candidate is an object: its address and its text. A candidate that
  has at least one 4-gram shingle (its text has at least four tokens) and shares no
  shingle with any other object of the pool scores exactly 1. A candidate whose text is
  also the text of another object of the pool scores at most one half, so strictly less
  than such a candidate. A text with fewer than four tokens has no shingle and scores 0.
  The score is computed in the reals; the floating-point division of the source is exact
  at the values 0 and 1 and monotone.
\<close>

theorem novelty_unique_and_duplicate:
  assumes "shingles (snd u) 4 \<noteq> []"
    and "\<forall>other \<in> set corpus. fst other \<noteq> fst u
           \<longrightarrow> set (shingles (snd other) 4) \<inter> set (shingles (snd u) 4) = {}"
  shows "novelty_score u corpus = 1
       \<and> (\<forall>d other. other \<in> set corpus \<and> fst other \<noteq> fst d \<and> snd other = snd d
            \<longrightarrow> novelty_score d corpus \<le> 1 / 2
                \<and> novelty_score d corpus < novelty_score u corpus)
       \<and> (\<forall>t. shingles (snd t) 4 = [] \<longrightarrow> novelty_score t corpus = 0)
       \<and> (\<forall>t. shingles t 4 = [] \<longleftrightarrow> length (split_ws (lower (strip (collapse_ws t)))) < 4)"
proof -
  have one: "novelty_score u corpus = 1" using assms by (rule novelty_zero_overlap)
  have dup: "\<forall>d other. other \<in> set corpus \<and> fst other \<noteq> fst d \<and> snd other = snd d
            \<longrightarrow> novelty_score d corpus \<le> 1 / 2
                \<and> novelty_score d corpus < novelty_score u corpus"
  proof (intro allI impI)
    fix d other
    assume "other \<in> set corpus \<and> fst other \<noteq> fst d \<and> snd other = snd d"
    then have "novelty_score d corpus \<le> 1 / 2" using novelty_duplicate by blast
    with one show "novelty_score d corpus \<le> 1 / 2
                \<and> novelty_score d corpus < novelty_score u corpus"
      by simp
  qed
  have none: "\<forall>t. shingles (snd t) 4 = [] \<longrightarrow> novelty_score t corpus = 0"
    by (simp add: novelty_no_shingles)
  have toks: "\<forall>t. shingles t 4 = [] \<longleftrightarrow> length (split_ws (lower (strip (collapse_ws t)))) < 4"
    by (auto simp: shingles_def Let_def)
  from one dup none toks show ?thesis by blast
qed

theorem novelty_unique_and_duplicate_witness:
  "shingles ''v w x y z'' 4 = [''v w x y'', ''w x y z'']
   \<and> shingles ''a b c d e'' 4 = [''a b c d'', ''b c d e'']
   \<and> novelty_score (2, ''v w x y z'')
        [(0, ''a b c d e''), (1, ''a b c d e''), (2, ''v w x y z'')] = 1
   \<and> novelty_score (0, ''a b c d e'')
        [(0, ''a b c d e''), (1, ''a b c d e''), (2, ''v w x y z'')] \<le> 1 / 2
   \<and> novelty_score (0, ''a b c d e'')
        [(0, ''a b c d e''), (1, ''a b c d e''), (2, ''v w x y z'')]
       < novelty_score (2, ''v w x y z'')
           [(0, ''a b c d e''), (1, ''a b c d e''), (2, ''v w x y z'')]"
proof -
  let ?corpus = "[(0::nat, ''a b c d e''), (1, ''a b c d e''), (2, ''v w x y z'')]"
  have s1: "shingles ''v w x y z'' 4 = [''v w x y'', ''w x y z'']" by code_simp
  have s2: "shingles ''a b c d e'' 4 = [''a b c d'', ''b c d e'']" by code_simp
  have h1: "shingles (snd (2::nat, ''v w x y z'')) 4 \<noteq> []" by (simp add: s1)
  have h2: "\<forall>other \<in> set ?corpus. fst other \<noteq> fst (2::nat, ''v w x y z'')
           \<longrightarrow> set (shingles (snd other) 4) \<inter> set (shingles (snd (2::nat, ''v w x y z'')) 4) = {}"
    by (simp add: s1 s2)
  have m: "(1::nat, ''a b c d e'') \<in> set ?corpus
           \<and> fst (1::nat, ''a b c d e'') \<noteq> fst (0::nat, ''a b c d e'')
           \<and> snd (1::nat, ''a b c d e'') = snd (0::nat, ''a b c d e'')"
    by simp
  from novelty_unique_and_duplicate [OF h1 h2] m
  have "novelty_score (2, ''v w x y z'') ?corpus = 1"
    and "novelty_score (0, ''a b c d e'') ?corpus \<le> 1 / 2
         \<and> novelty_score (0, ''a b c d e'') ?corpus < novelty_score (2, ''v w x y z'') ?corpus"
    by blast+
  with s1 s2 show ?thesis by blast
qed

text \<open>
  Claim C8 as stated fails on a short text: \<open>hello world\<close> is not empty and has no
  shingle, so it shares none with the rest of the pool, and its score is 0, not 1.
\<close>

theorem novelty_short_text_counterexample:
  "shingles ''hello world'' 4 = []
   \<and> novelty_score (0, ''hello world'') [(0, ''hello world''), (1, ''foo bar baz qux'')] = 0"
  by code_simp

end
